theory Spec2Isabelle
  imports Main "HOL-Library.Multiset"
begin

section \<open>MiniTwit: the store\<close>

text \<open>
  The three tables that \<^verbatim>\<open>minitwit.py\<close> reads and writes through literal SQL. A table
  is the list of its rows in insertion order. Integers are Python's unbounded integers;
  the 64-bit range of SQLite's integers enters where the driver binds an integer that a
  request supplies (\<open>fits_int64\<close> below). The column \<^verbatim>\<open>text\<close> of \<^verbatim>\<open>message\<close> is
  called \<open>msg_text\<close> here.
\<close>

record user_row =
  user_id :: int
  username :: string
  email :: string
  pw_hash :: string

record message_row =
  message_id :: int
  author_id :: int
  msg_text :: string
  pub_date :: int
  flagged :: int

record follower_row =
  who_id :: int
  whom_id :: int

record database =
  user_tbl :: "user_row list"
  follower_tbl :: "follower_row list"
  message_tbl :: "message_row list"

type_synonym timeline_row = "message_row \<times> user_row"

text \<open>
  Modelled from the spec: \<^verbatim>\<open>schema.sql\<close>, which \<^verbatim>\<open>init_db\<close> loads, is not among the
  sources. The spec's data model gives every user and every message a unique numeric
  identifier that the store assigns; a fresh identifier is one more than the largest
  identifier of the table (1 for an empty table).
\<close>

definition next_id :: "int list \<Rightarrow> int" where
  "next_id ids = fold max ids 0 + 1"

text \<open>
  Modelled from the spec: \<^verbatim>\<open>schema.sql\<close> is not among the sources. The spec's data
  model states two invariants of the store that the timeline joins rely on: user
  identifiers are unique, and the author of a message references an existing user.
\<close>

definition unique_user_ids :: "database \<Rightarrow> bool" where
  "unique_user_ids db = distinct (map user_id (user_tbl db))"

definition authors_exist :: "database \<Rightarrow> bool" where
  "authors_exist db = list_all (\<lambda>m. author_id m \<in> set (map user_id (user_tbl db))) (message_tbl db)"

section \<open>Configuration\<close>

definition PER_PAGE :: int where
  "PER_PAGE = 30"

section \<open>The SQL fragment the handlers use\<close>

text \<open>
  \<^verbatim>\<open>query_db(query, args, one=True)\<close> returns \<^verbatim>\<open>rv[0] if rv else None\<close>.
\<close>

definition query_db_one :: "'a list \<Rightarrow> 'a option" where
  "query_db_one rv = (case rv of [] \<Rightarrow> None | r # _ \<Rightarrow> Some r)"

text \<open>\<^verbatim>\<open>from message, user\<close>: every message paired with every user.\<close>

definition message_user :: "database \<Rightarrow> timeline_row list" where
  "message_user db = List.product (message_tbl db) (user_tbl db)"

text \<open>
  \<^verbatim>\<open>order by message.pub_date desc\<close>. SQL leaves the order of rows with equal
  \<^verbatim>\<open>pub_date\<close> open; the model keeps them in the order of the join (a stable sort).
\<close>

definition order_by_pub_date_desc :: "timeline_row list \<Rightarrow> timeline_row list" where
  "order_by_pub_date_desc rows = sort_key (\<lambda>r. - pub_date (fst r)) rows"

text \<open>
  \<^verbatim>\<open>limit ? offset ?\<close> as SQLite computes it: a negative offset counts as zero and
  a negative limit as no limit.
\<close>

definition limit_offset :: "int \<Rightarrow> int \<Rightarrow> 'a list \<Rightarrow> 'a list" where
  "limit_offset lim off rows =
     (let rest = drop (nat off) rows in if lim < 0 then rest else take (nat lim) rest)"

text \<open>
  A Python integer bound to a \<^verbatim>\<open>?\<close> of a statement must fit a signed 64-bit integer:
  otherwise \<^verbatim>\<open>execute\<close> raises \<^verbatim>\<open>OverflowError\<close> before the statement runs. The
  ids and timestamps that the views bind come from the store, the signed session or the
  clock; the offset \<^verbatim>\<open>page * PER_PAGE\<close> comes from the query string and has no bound.
\<close>

definition fits_int64 :: "int \<Rightarrow> bool" where
  "fits_int64 n = (- (2 ^ 63) \<le> n \<and> n < 2 ^ 63)"

text \<open>\<^verbatim>\<open>select whom_id from follower where who_id = ?\<close>\<close>

definition followed_ids :: "database \<Rightarrow> int \<Rightarrow> int list" where
  "followed_ids db uid = map whom_id (filter (\<lambda>f. who_id f = uid) (follower_tbl db))"

text \<open>The query of \<^verbatim>\<open>timeline\<close> (lines 175 to 181).\<close>

definition select_home_timeline :: "database \<Rightarrow> int \<Rightarrow> int \<Rightarrow> int \<Rightarrow> timeline_row list" where
  "select_home_timeline db uid lim off =
     limit_offset lim off (order_by_pub_date_desc
       (filter (\<lambda>(m, u). flagged m = 0 \<and> author_id m = user_id u \<and>
                  (user_id u = uid \<or> user_id u \<in> set (followed_ids db uid)))
          (message_user db)))"

text \<open>The query of \<^verbatim>\<open>public_timeline\<close> (lines 196 to 199).\<close>

definition select_public_timeline :: "database \<Rightarrow> int \<Rightarrow> int \<Rightarrow> timeline_row list" where
  "select_public_timeline db lim off =
     limit_offset lim off (order_by_pub_date_desc
       (filter (\<lambda>(m, u). flagged m = 0 \<and> author_id m = user_id u) (message_user db)))"

text \<open>The query of \<^verbatim>\<open>user_timeline\<close> (lines 232 to 235).\<close>

definition select_user_timeline :: "database \<Rightarrow> int \<Rightarrow> int \<Rightarrow> int \<Rightarrow> timeline_row list" where
  "select_user_timeline db pid lim off =
     limit_offset lim off (order_by_pub_date_desc
       (filter (\<lambda>(m, u). flagged m = 0 \<and> user_id u = author_id m \<and> user_id u = pid)
          (message_user db)))"

text \<open>\<^verbatim>\<open>select * from user where user_id = ?\<close>\<close>

definition select_user_by_id :: "database \<Rightarrow> int \<Rightarrow> user_row list" where
  "select_user_by_id db uid = filter (\<lambda>u. user_id u = uid) (user_tbl db)"

text \<open>\<^verbatim>\<open>select * from user where username = ?\<close>\<close>

definition select_user_by_name :: "database \<Rightarrow> string \<Rightarrow> user_row list" where
  "select_user_by_name db name = filter (\<lambda>u. username u = name) (user_tbl db)"

text \<open>\<^verbatim>\<open>select 1 from follower where follower.who_id = ? and follower.whom_id = ?\<close>\<close>

definition select_follower :: "database \<Rightarrow> int \<Rightarrow> int \<Rightarrow> follower_row list" where
  "select_follower db who whom =
     filter (\<lambda>f. who_id f = who \<and> whom_id f = whom) (follower_tbl db)"

text \<open>\<^verbatim>\<open>insert into follower (who_id, whom_id) values (?, ?)\<close>\<close>

definition insert_follower :: "database \<Rightarrow> int \<Rightarrow> int \<Rightarrow> database" where
  "insert_follower db who whom =
     db\<lparr>follower_tbl := follower_tbl db @ [\<lparr>who_id = who, whom_id = whom\<rparr>]\<rparr>"

text \<open>\<^verbatim>\<open>delete from follower where who_id=? and whom_id=?\<close>\<close>

definition delete_follower :: "database \<Rightarrow> int \<Rightarrow> int \<Rightarrow> database" where
  "delete_follower db who whom =
     db\<lparr>follower_tbl := filter (\<lambda>f. \<not> (who_id f = who \<and> whom_id f = whom)) (follower_tbl db)\<rparr>"

text \<open>
  \<^verbatim>\<open>insert into message (author_id, text, pub_date, flagged) values (?, ?, ?, 0)\<close>
\<close>

definition insert_message :: "database \<Rightarrow> int \<Rightarrow> string \<Rightarrow> int \<Rightarrow> database" where
  "insert_message db author txt t =
     db\<lparr>message_tbl := message_tbl db @
        [\<lparr>message_id = next_id (map message_id (message_tbl db)), author_id = author,
          msg_text = txt, pub_date = t, flagged = 0\<rparr>]\<rparr>"

text \<open>\<^verbatim>\<open>insert into user (username, email, pw_hash) values (?, ?, ?)\<close>\<close>

definition insert_user :: "database \<Rightarrow> string \<Rightarrow> string \<Rightarrow> string \<Rightarrow> database" where
  "insert_user db name mail hash =
     db\<lparr>user_tbl := user_tbl db @
        [\<lparr>user_id = next_id (map user_id (user_tbl db)), username = name,
          email = mail, pw_hash = hash\<rparr>]\<rparr>"

text \<open>
  \<^verbatim>\<open>get_user_id\<close>: \<^verbatim>\<open>select user_id from user where username = ?\<close>, then
  \<^verbatim>\<open>fetchone\<close> and \<^verbatim>\<open>rv[0] if rv else None\<close>.
\<close>

definition get_user_id :: "database \<Rightarrow> string \<Rightarrow> int option" where
  "get_user_id db name =
     (case filter (\<lambda>u. username u = name) (user_tbl db) of
        [] \<Rightarrow> None
      | rv # _ \<Rightarrow> Some (user_id rv))"

section \<open>Requests, sessions and responses\<close>

datatype http_method = GET | POST

text \<open>
  What a view reads from the request: the HTTP verb, the form fields, the query argument
  \<^verbatim>\<open>p\<close> as \<^verbatim>\<open>request.args.get("p", default=0, type=int)\<close> parses it (\<open>None\<close> when
  it is absent or not an integer), and the clock that \<^verbatim>\<open>int(time.time())\<close> reads.
\<close>

record request =
  req_method :: http_method
  form :: "string \<rightharpoonup> string"
  arg_p :: "int option"
  time_now :: int

text \<open>The signed cookie session: the key \<^verbatim>\<open>user_id\<close> and the flashed messages.\<close>

record session =
  sess_user_id :: "int option"
  flashes :: "string list"

datatype endpoint = To_timeline | To_public_timeline | To_user_timeline string | To_login

text \<open>
  \<open>Abort\<close> is \<^verbatim>\<open>abort(code)\<close> and the 400 that a missing form key raises;
  \<open>Server_error\<close> is an exception no handler catches; \<open>Timeline_page\<close> is
  \<^verbatim>\<open>timeline.html\<close> with its \<^verbatim>\<open>messages\<close>, \<^verbatim>\<open>followed\<close> and
  \<^verbatim>\<open>profile_user\<close>.
\<close>

datatype response =
    Redirect endpoint
  | Abort nat
  | Server_error
  | Timeline_page "timeline_row list" "bool option" "user_row option"
  | Login_page "string option"
  | Register_page "string option"

text \<open>What a view does besides answering, in the order it does it.\<close>

datatype effect =
    Sql_select_user_by_id
  | Sql_select_user_id_by_name
  | Sql_select_user_by_name
  | Sql_select_follower
  | Sql_select_home_timeline
  | Sql_select_public_timeline
  | Sql_select_user_timeline
  | Sql_insert_follower
  | Sql_delete_follower
  | Sql_insert_message
  | Sql_insert_user
  | Commit
  | Password_hash_checked
  | Password_hash_generated

type_synonym outcome = "response \<times> database \<times> session \<times> effect list"

definition flash :: "string \<Rightarrow> session \<Rightarrow> session" where
  "flash msg sess = sess\<lparr>flashes := flashes sess @ [msg]\<rparr>"

definition page_arg :: "request \<Rightarrow> int" where
  "page_arg req = (case arg_p req of None \<Rightarrow> 0 | Some p \<Rightarrow> p)"

definition rendered_messages :: "response \<Rightarrow> timeline_row list" where
  "rendered_messages r = (case r of Timeline_page msgs _ _ \<Rightarrow> msgs | _ \<Rightarrow> [])"

text \<open>The \<^verbatim>\<open>followed\<close> that a page hands to the template, when it hands one.\<close>

definition rendered_followed :: "response \<Rightarrow> bool option" where
  "rendered_followed r = (case r of Timeline_page _ followed _ \<Rightarrow> followed | _ \<Rightarrow> None)"

section \<open>The views\<close>

text \<open>
  A view takes the database, \<^verbatim>\<open>g.user\<close>, the session and the request, and returns
  its response, the database and the session as it leaves them, and what it did. Where a
  view reads \<^verbatim>\<open>session["user_id"]\<close> and the key is missing, Python raises
  \<^verbatim>\<open>KeyError\<close>, which is \<open>Server_error\<close> here; after \<^verbatim>\<open>before_request\<close> has
  found a user the key is present. The counters in \<^verbatim>\<open>EXECUTION_FREQS\<close> and the
  Prometheus metrics only observe and are left out.

  \<^verbatim>\<open>before_request\<close> looks the session's user up and leaves it in \<^verbatim>\<open>g.user\<close>.
\<close>

definition before_request :: "database \<Rightarrow> session \<Rightarrow> user_row option \<times> effect list" where
  "before_request db sess =
     (case sess_user_id sess of
        None \<Rightarrow> (None, [])
      | Some uid \<Rightarrow> (query_db_one (select_user_by_id db uid), [Sql_select_user_by_id]))"

definition timeline :: "database \<Rightarrow> user_row option \<Rightarrow> session \<Rightarrow> request \<Rightarrow> outcome" where
  "timeline db g_user sess req =
     (let page = page_arg req in
      if g_user = None then (Redirect To_public_timeline, db, sess, [])
      else case sess_user_id sess of
             None \<Rightarrow> (Server_error, db, sess, [])
           | Some uid \<Rightarrow>
               if \<not> fits_int64 (page * PER_PAGE) then (Server_error, db, sess, [])
               else
                 (Timeline_page (select_home_timeline db uid PER_PAGE (page * PER_PAGE)) None None,
                  db, sess, [Sql_select_home_timeline]))"

definition public_timeline :: "database \<Rightarrow> user_row option \<Rightarrow> session \<Rightarrow> request \<Rightarrow> outcome" where
  "public_timeline db g_user sess req =
     (let page = page_arg req in
      if \<not> fits_int64 (page * PER_PAGE) then (Server_error, db, sess, [])
      else
        (Timeline_page (select_public_timeline db PER_PAGE (page * PER_PAGE)) None None,
         db, sess, [Sql_select_public_timeline]))"

definition user_timeline ::
  "string \<Rightarrow> database \<Rightarrow> user_row option \<Rightarrow> session \<Rightarrow> request \<Rightarrow> outcome" where
  "user_timeline name db g_user sess req =
     (case query_db_one (select_user_by_name db name) of
        None \<Rightarrow> (Abort 404, db, sess, [Sql_select_user_by_name])
      | Some profile_user \<Rightarrow>
          if g_user \<noteq> None then
            (case sess_user_id sess of
               None \<Rightarrow> (Server_error, db, sess, [Sql_select_user_by_name])
             | Some uid \<Rightarrow>
                 (let followed =
                        (query_db_one (select_follower db uid (user_id profile_user)) \<noteq> None);
                      page = page_arg req
                  in if \<not> fits_int64 (page * PER_PAGE) then
                       (Server_error, db, sess, [Sql_select_user_by_name, Sql_select_follower])
                     else
                       (Timeline_page
                          (select_user_timeline db (user_id profile_user) PER_PAGE
                             (page * PER_PAGE))
                          (Some followed) (Some profile_user),
                        db, sess,
                        [Sql_select_user_by_name, Sql_select_follower, Sql_select_user_timeline])))
          else
            (let page = page_arg req
             in if \<not> fits_int64 (page * PER_PAGE) then
                  (Server_error, db, sess, [Sql_select_user_by_name])
                else
                  (Timeline_page
                     (select_user_timeline db (user_id profile_user) PER_PAGE (page * PER_PAGE))
                     (Some False) (Some profile_user),
                   db, sess, [Sql_select_user_by_name, Sql_select_user_timeline])))"

definition follow_user ::
  "string \<Rightarrow> database \<Rightarrow> user_row option \<Rightarrow> session \<Rightarrow> request \<Rightarrow> outcome" where
  "follow_user name db g_user sess req =
     (if g_user = None then (Abort 401, db, sess, [])
      else case get_user_id db name of
             None \<Rightarrow> (Abort 404, db, sess, [Sql_select_user_id_by_name])
           | Some whom \<Rightarrow>
               (case sess_user_id sess of
                  None \<Rightarrow> (Server_error, db, sess, [Sql_select_user_id_by_name])
                | Some uid \<Rightarrow>
                    (Redirect (To_user_timeline name),
                     insert_follower db uid whom,
                     flash (''You are now following '' @ [CHR 0x22] @ name @ [CHR 0x22]) sess,
                     [Sql_select_user_id_by_name, Sql_insert_follower, Commit])))"

definition unfollow_user ::
  "string \<Rightarrow> database \<Rightarrow> user_row option \<Rightarrow> session \<Rightarrow> request \<Rightarrow> outcome" where
  "unfollow_user name db g_user sess req =
     (if g_user = None then (Abort 401, db, sess, [])
      else case get_user_id db name of
             None \<Rightarrow> (Abort 404, db, sess, [Sql_select_user_id_by_name])
           | Some whom \<Rightarrow>
               (case sess_user_id sess of
                  None \<Rightarrow> (Server_error, db, sess, [Sql_select_user_id_by_name])
                | Some uid \<Rightarrow>
                    (Redirect (To_user_timeline name),
                     delete_follower db uid whom,
                     flash (''You are no longer following '' @ [CHR 0x22] @ name @ [CHR 0x22]) sess,
                     [Sql_select_user_id_by_name, Sql_delete_follower, Commit])))"

definition add_message :: "database \<Rightarrow> user_row option \<Rightarrow> session \<Rightarrow> request \<Rightarrow> outcome" where
  "add_message db g_user sess req =
     (case sess_user_id sess of
        None \<Rightarrow> (Abort 401, db, sess, [])
      | Some uid \<Rightarrow>
          (case form req ''text'' of
             None \<Rightarrow> (Abort 400, db, sess, [])
           | Some txt \<Rightarrow>
               if txt \<noteq> [] then
                 (Redirect To_timeline,
                  insert_message db uid txt (time_now req),
                  flash ''Your message was recorded'' sess,
                  [Sql_insert_message, Commit])
               else (Redirect To_timeline, db, sess, [])))"

definition login ::
  "(string \<Rightarrow> string \<Rightarrow> bool) \<Rightarrow>
   database \<Rightarrow> user_row option \<Rightarrow> session \<Rightarrow> request \<Rightarrow> outcome" where
  "login check_password_hash db g_user sess req =
     (if g_user \<noteq> None then (Redirect To_timeline, db, sess, [])
      else if req_method req = POST then
        (case form req ''username'' of
           None \<Rightarrow> (Abort 400, db, sess, [])
         | Some name \<Rightarrow>
             (case query_db_one (select_user_by_name db name) of
                None \<Rightarrow>
                  (Login_page (Some ''Invalid username''), db, sess, [Sql_select_user_by_name])
              | Some user \<Rightarrow>
                  (case form req ''password'' of
                     None \<Rightarrow> (Abort 400, db, sess, [Sql_select_user_by_name])
                   | Some pw \<Rightarrow>
                       if \<not> check_password_hash (pw_hash user) pw then
                         (Login_page (Some ''Invalid password''), db, sess,
                          [Sql_select_user_by_name, Password_hash_checked])
                       else
                         (Redirect To_timeline, db,
                          (flash ''You were logged in'' sess)\<lparr>sess_user_id := Some (user_id user)\<rparr>,
                          [Sql_select_user_by_name, Password_hash_checked]))))
      else (Login_page None, db, sess, []))"

definition register ::
  "(string \<Rightarrow> string) \<Rightarrow>
   database \<Rightarrow> user_row option \<Rightarrow> session \<Rightarrow> request \<Rightarrow> outcome" where
  "register generate_password_hash db g_user sess req =
     (if g_user \<noteq> None then (Redirect To_timeline, db, sess, [])
      else if req_method req = POST then
        (case form req ''username'' of
           None \<Rightarrow> (Abort 400, db, sess, [])
         | Some name \<Rightarrow>
             if name = [] then
               (Register_page (Some ''You have to enter a username''), db, sess, [])
             else
               (case form req ''email'' of
                  None \<Rightarrow> (Abort 400, db, sess, [])
                | Some mail \<Rightarrow>
                    if mail = [] \<or> CHR ''@'' \<notin> set mail then
                      (Register_page (Some ''You have to enter a valid email address''),
                       db, sess, [])
                    else
                      (case form req ''password'' of
                         None \<Rightarrow> (Abort 400, db, sess, [])
                       | Some pw \<Rightarrow>
                           if pw = [] then
                             (Register_page (Some ''You have to enter a password''), db, sess, [])
                           else
                             (case form req ''password2'' of
                                None \<Rightarrow> (Abort 400, db, sess, [])
                              | Some pw2 \<Rightarrow>
                                  if pw \<noteq> pw2 then
                                    (Register_page (Some ''The two passwords do not match''),
                                     db, sess, [])
                                  else if get_user_id db name \<noteq> None then
                                    (Register_page (Some ''The username is already taken''),
                                     db, sess, [Sql_select_user_id_by_name])
                                  else
                                    (Redirect To_login,
                                     insert_user db name mail (generate_password_hash pw),
                                     flash ''You were successfully registered and can login now'' sess,
                                     [Sql_select_user_id_by_name, Password_hash_generated,
                                      Sql_insert_user, Commit])))))
      else (Register_page None, db, sess, []))"

definition logout :: "database \<Rightarrow> user_row option \<Rightarrow> session \<Rightarrow> request \<Rightarrow> outcome" where
  "logout db g_user sess req =
     (Redirect To_public_timeline, db,
      (flash ''You were logged out'' sess)\<lparr>sess_user_id := None\<rparr>, [])"

text \<open>One request: \<^verbatim>\<open>before_request\<close>, then the view with \<^verbatim>\<open>g.user\<close> set.\<close>

definition handle_request ::
  "(database \<Rightarrow> user_row option \<Rightarrow> session \<Rightarrow> request \<Rightarrow> outcome) \<Rightarrow>
   database \<Rightarrow> session \<Rightarrow> request \<Rightarrow> outcome" where
  "handle_request view db sess req =
     (case before_request db sess of
        (g_user, looked_up) \<Rightarrow>
          (case view db g_user sess req of
             (resp, db', sess', done) \<Rightarrow> (resp, db', sess', looked_up @ done)))"

section \<open>Routes and runs\<close>

text \<open>The routes that the decorators \<^verbatim>\<open>app.route\<close> declare, and the view of each.\<close>

datatype route =
    Route_timeline
  | Route_public_timeline
  | Route_user_timeline string
  | Route_follow_user string
  | Route_unfollow_user string
  | Route_add_message
  | Route_login
  | Route_register
  | Route_logout

definition view_of ::
  "(string \<Rightarrow> string \<Rightarrow> bool) \<Rightarrow> (string \<Rightarrow> string) \<Rightarrow> route \<Rightarrow>
   database \<Rightarrow> user_row option \<Rightarrow> session \<Rightarrow> request \<Rightarrow> outcome" where
  "view_of check_password_hash generate_password_hash r =
     (case r of
        Route_timeline \<Rightarrow> timeline
      | Route_public_timeline \<Rightarrow> public_timeline
      | Route_user_timeline name \<Rightarrow> user_timeline name
      | Route_follow_user name \<Rightarrow> follow_user name
      | Route_unfollow_user name \<Rightarrow> unfollow_user name
      | Route_add_message \<Rightarrow> add_message
      | Route_login \<Rightarrow> login check_password_hash
      | Route_register \<Rightarrow> register generate_password_hash
      | Route_logout \<Rightarrow> logout)"

text \<open>
  Modelled from the spec: \<^verbatim>\<open>init_db\<close> runs \<^verbatim>\<open>schema.sql\<close>, which is not among the
  sources; it leaves the three tables of the data model empty.
\<close>

definition init_db :: database where
  "init_db = \<lparr>user_tbl = [], follower_tbl = [], message_tbl = []\<rparr>"

text \<open>A run: the requests of one client, served one after the other.\<close>

fun serve ::
  "(string \<Rightarrow> string \<Rightarrow> bool) \<Rightarrow> (string \<Rightarrow> string) \<Rightarrow>
   (route \<times> request) list \<Rightarrow> database \<Rightarrow> session \<Rightarrow> database \<times> session" where
  "serve check_password_hash generate_password_hash [] db sess = (db, sess)"
| "serve check_password_hash generate_password_hash ((r, req) # rest) db sess =
     (case handle_request (view_of check_password_hash generate_password_hash r) db sess req of
        (resp, db', sess', done) \<Rightarrow>
          serve check_password_hash generate_password_hash rest db' sess')"

section \<open>Vocabulary of the properties\<close>

text \<open>The three statements that read a timeline.\<close>

definition is_timeline_query :: "effect \<Rightarrow> bool" where
  "is_timeline_query e =
     (e = Sql_select_home_timeline \<or> e = Sql_select_public_timeline \<or> e = Sql_select_user_timeline)"

text \<open>
  A response that reports a failure: an error status, or a form page rendered with an
  error message.
\<close>

definition is_error :: "response \<Rightarrow> bool" where
  "is_error r =
     (case r of
        Abort _ \<Rightarrow> True
      | Server_error \<Rightarrow> True
      | Login_page (Some _) \<Rightarrow> True
      | Register_page (Some _) \<Rightarrow> True
      | _ \<Rightarrow> False)"




text \<open>
  The fields of a registration form that passes every check of \<^verbatim>\<open>register\<close> before
  the lookup of the username.
\<close>

definition valid_registration :: "request \<Rightarrow> string \<Rightarrow> string \<Rightarrow> string \<Rightarrow> bool" where
  "valid_registration req name mail pw =
     (req_method req = POST \<and>
      form req ''username'' = Some name \<and> name \<noteq> [] \<and>
      form req ''email'' = Some mail \<and> mail \<noteq> [] \<and> CHR ''@'' \<in> set mail \<and>
      form req ''password'' = Some pw \<and> pw \<noteq> [] \<and>
      form req ''password2'' = Some pw)"

text \<open>
  The invariant of the runs: the two invariants of the store, and the user id of the session
  is the id of a user.
\<close>

definition session_user_exists :: "database \<Rightarrow> session \<Rightarrow> bool" where
  "session_user_exists db sess =
     (case sess_user_id sess of
        None \<Rightarrow> True
      | Some uid \<Rightarrow> uid \<in> set (map user_id (user_tbl db)))"

definition store_invariant :: "database \<Rightarrow> session \<Rightarrow> bool" where
  "store_invariant db sess =
     (unique_user_ids db \<and> authors_exist db \<and> session_user_exists db sess)"

section \<open>Example data\<close>

definition ex_alice :: user_row where
  "ex_alice = \<lparr>user_id = 1, username = ''alice'', email = ''a@x.com'', pw_hash = ''pw1''\<rparr>"

definition ex_bob :: user_row where
  "ex_bob = \<lparr>user_id = 2, username = ''bob'', email = ''b@x.com'', pw_hash = ''pw2''\<rparr>"


definition ex_message :: "int \<Rightarrow> int \<Rightarrow> int \<Rightarrow> int \<Rightarrow> message_row" where
  "ex_message i a t f =
     \<lparr>message_id = i, author_id = a, msg_text = ''hello'', pub_date = t, flagged = f\<rparr>"

text \<open>
  Alice follows Bob. Message 2 is flagged; message 4 has an author that is no user.
\<close>

definition ex_db :: database where
  "ex_db =
     \<lparr>user_tbl = [ex_alice, ex_bob],
      follower_tbl = [\<lparr>who_id = 1, whom_id = 2\<rparr>],
      message_tbl =
        [ex_message 1 1 10 0, ex_message 2 2 20 1, ex_message 3 2 30 0, ex_message 4 9 40 0]\<rparr>"



definition ex_anonymous :: session where
  "ex_anonymous = \<lparr>sess_user_id = None, flashes = []\<rparr>"

definition ex_alice_session :: session where
  "ex_alice_session = \<lparr>sess_user_id = Some 1, flashes = []\<rparr>"

definition ex_bob_session :: session where
  "ex_bob_session = \<lparr>sess_user_id = Some 2, flashes = []\<rparr>"

definition ex_get :: request where
  "ex_get = \<lparr>req_method = GET, form = Map.empty, arg_p = None, time_now = 100\<rparr>"


definition ex_post_empty_text :: request where
  "ex_post_empty_text =
     \<lparr>req_method = POST, form = [''text'' \<mapsto> []], arg_p = None, time_now = 100\<rparr>"

definition ex_post_register :: request where
  "ex_post_register =
     \<lparr>req_method = POST,
      form = [''username'' \<mapsto> ''carol'', ''email'' \<mapsto> ''c@x.com'',
              ''password'' \<mapsto> ''pw3'', ''password2'' \<mapsto> ''pw3''],
      arg_p = None, time_now = 100\<rparr>"

lemmas ex_defs = ex_alice_def ex_bob_def ex_message_def ex_db_def ex_anonymous_def
  ex_alice_session_def ex_get_def

lemmas sql_defs = select_home_timeline_def select_public_timeline_def select_user_timeline_def
  limit_offset_def order_by_pub_date_desc_def message_user_def followed_ids_def PER_PAGE_def
  page_arg_def query_db_one_def select_user_by_name_def select_user_by_id_def fits_int64_def

section \<open>What a timeline query can return\<close>

lemma set_limit_offset: "set (limit_offset lim off rows) \<subseteq> set rows"
  unfolding limit_offset_def Let_def
  by (auto dest: in_set_dropD in_set_takeD)

lemma set_order_by_pub_date_desc [simp]: "set (order_by_pub_date_desc rows) = set rows"
  by (simp add: order_by_pub_date_desc_def)

lemma set_message_user:
  "set (message_user db) = set (message_tbl db) \<times> set (user_tbl db)"
  by (simp add: message_user_def)

lemma in_limit_order_filter:
  assumes "r \<in> set (limit_offset lim off (order_by_pub_date_desc (filter P rows)))"
  shows "r \<in> set rows \<and> P r"
proof -
  have "r \<in> set (order_by_pub_date_desc (filter P rows))"
    by (rule subsetD [OF set_limit_offset assms])
  then show ?thesis by simp
qed

lemma select_home_timeline_row:
  assumes "r \<in> set (select_home_timeline db uid lim off)"
  shows "fst r \<in> set (message_tbl db)" and "snd r \<in> set (user_tbl db)"
    and "flagged (fst r) = 0" and "author_id (fst r) = user_id (snd r)"
    and "user_id (snd r) = uid \<or> user_id (snd r) \<in> set (followed_ids db uid)"
  using in_limit_order_filter [OF assms [unfolded select_home_timeline_def]]
  by (auto simp: set_message_user split: prod.splits)

lemma select_public_timeline_row:
  assumes "r \<in> set (select_public_timeline db lim off)"
  shows "fst r \<in> set (message_tbl db)" and "snd r \<in> set (user_tbl db)"
    and "flagged (fst r) = 0" and "author_id (fst r) = user_id (snd r)"
  using in_limit_order_filter [OF assms [unfolded select_public_timeline_def]]
  by (auto simp: set_message_user split: prod.splits)

lemma select_user_timeline_row:
  assumes "r \<in> set (select_user_timeline db pid lim off)"
  shows "fst r \<in> set (message_tbl db)" and "snd r \<in> set (user_tbl db)"
    and "flagged (fst r) = 0" and "author_id (fst r) = user_id (snd r)"
    and "user_id (snd r) = pid"
  using in_limit_order_filter [OF assms [unfolded select_user_timeline_def]]
  by (auto simp: set_message_user split: prod.splits)

text \<open>The messages each timeline view hands to the template.\<close>

lemma rendered_timeline:
  "rendered_messages (fst (timeline db g_user sess req)) =
     (case g_user of None \<Rightarrow> [] | Some _ \<Rightarrow>
        (case sess_user_id sess of None \<Rightarrow> []
         | Some uid \<Rightarrow>
             if \<not> fits_int64 (page_arg req * PER_PAGE) then []
             else select_home_timeline db uid PER_PAGE (page_arg req * PER_PAGE)))"
  by (simp add: timeline_def rendered_messages_def Let_def split: option.splits)

lemma rendered_public_timeline:
  "rendered_messages (fst (public_timeline db g_user sess req)) =
     (if \<not> fits_int64 (page_arg req * PER_PAGE) then []
      else select_public_timeline db PER_PAGE (page_arg req * PER_PAGE))"
  by (simp add: public_timeline_def rendered_messages_def Let_def)

lemma rendered_user_timeline:
  "rendered_messages (fst (user_timeline name db g_user sess req)) =
     (case query_db_one (select_user_by_name db name) of None \<Rightarrow> []
      | Some profile_user \<Rightarrow>
          if (g_user \<noteq> None \<and> sess_user_id sess = None) \<or>
             \<not> fits_int64 (page_arg req * PER_PAGE) then []
          else select_user_timeline db (user_id profile_user) PER_PAGE (page_arg req * PER_PAGE))"
  by (auto simp: user_timeline_def rendered_messages_def Let_def split: option.splits)

lemma before_request_Some:
  "fst (before_request db sess) = Some u \<Longrightarrow>
   before_request db sess = (Some u, [Sql_select_user_by_id])"
  by (auto simp: before_request_def split: option.splits)

lemma before_request_None:
  "fst (before_request db sess) = None \<Longrightarrow>
   before_request db sess = (None, []) \<or> before_request db sess = (None, [Sql_select_user_by_id])"
  by (auto simp: before_request_def split: option.splits)

section \<open>Flagged messages\<close>

text \<open>
  Claim C2. In every database state, whoever asks and whatever the page, each message that
  the home, the public or a profile timeline renders has \<open>flagged = 0\<close>; so no message
  with \<open>flagged = 1\<close> is ever in the returned sequence.
\<close>

theorem timelines_never_flagged:
  "(\<forall>r \<in> set (rendered_messages (fst (timeline db g_user sess req))).
      flagged (fst r) = 0 \<and> flagged (fst r) \<noteq> 1) \<and>
   (\<forall>r \<in> set (rendered_messages (fst (public_timeline db g_user sess req))).
      flagged (fst r) = 0 \<and> flagged (fst r) \<noteq> 1) \<and>
   (\<forall>r \<in> set (rendered_messages (fst (user_timeline name db g_user sess req))).
      flagged (fst r) = 0 \<and> flagged (fst r) \<noteq> 1)"
proof (intro conjI ballI)
  fix r assume "r \<in> set (rendered_messages (fst (timeline db g_user sess req)))"
  then show "flagged (fst r) = 0"
    by (auto simp: rendered_timeline split: option.splits if_splits
        dest: select_home_timeline_row(3))
  then show "flagged (fst r) \<noteq> 1" by simp
next
  fix r assume "r \<in> set (rendered_messages (fst (public_timeline db g_user sess req)))"
  then show "flagged (fst r) = 0"
    by (auto simp: rendered_public_timeline split: if_splits
        dest: select_public_timeline_row(3))
  then show "flagged (fst r) \<noteq> 1" by simp
next
  fix r assume "r \<in> set (rendered_messages (fst (user_timeline name db g_user sess req)))"
  then show "flagged (fst r) = 0"
    by (auto simp: rendered_user_timeline split: option.splits if_splits
        dest: select_user_timeline_row(3))
  then show "flagged (fst r) \<noteq> 1" by simp
qed

text \<open>
  In the example store Bob's unflagged message 3 is on all three timelines, and his
  flagged message 2 is not on the public one.
\<close>

theorem timelines_never_flagged_witness:
  "(ex_message 3 2 30 0, ex_bob) \<in>
     set (rendered_messages (fst (timeline ex_db (Some ex_alice) ex_alice_session ex_get))) \<and>
   (ex_message 3 2 30 0, ex_bob) \<in>
     set (rendered_messages (fst (public_timeline ex_db (Some ex_alice) ex_alice_session ex_get))) \<and>
   (ex_message 3 2 30 0, ex_bob) \<in>
     set (rendered_messages
            (fst (user_timeline ''bob'' ex_db (Some ex_alice) ex_alice_session ex_get))) \<and>
   flagged (ex_message 3 2 30 0) \<noteq> 1 \<and>
   ex_message 2 2 20 1 \<in> set (message_tbl ex_db) \<and>
   ex_message 2 2 20 1 \<notin>
     fst ` set (rendered_messages
                 (fst (public_timeline ex_db (Some ex_alice) ex_alice_session ex_get)))"
proof -
  let ?r = "(ex_message 3 2 30 0, ex_bob)"
  have a: "?r \<in> set (rendered_messages
                      (fst (timeline ex_db (Some ex_alice) ex_alice_session ex_get)))"
    by (simp add: rendered_timeline sql_defs ex_defs)
  have b: "?r \<in> set (rendered_messages
                      (fst (public_timeline ex_db (Some ex_alice) ex_alice_session ex_get)))"
    by (simp add: rendered_public_timeline sql_defs ex_defs)
  have c: "?r \<in> set (rendered_messages
                      (fst (user_timeline ''bob'' ex_db (Some ex_alice) ex_alice_session ex_get)))"
    by (simp add: rendered_user_timeline sql_defs ex_defs)
  have d: "ex_message 2 2 20 1 \<in> set (message_tbl ex_db)"
    by (simp add: ex_defs)
  have e: "flagged (ex_message 2 2 20 1) = 1"
    by (simp add: ex_defs)
  note t = timelines_never_flagged [of ex_db "Some ex_alice" ex_alice_session ex_get "''bob''"]
  from t a have "flagged (fst ?r) \<noteq> 1" by blast
  moreover from t e have "ex_message 2 2 20 1 \<notin>
     fst ` set (rendered_messages
                 (fst (public_timeline ex_db (Some ex_alice) ex_alice_session ex_get)))"
    by force
  ultimately show ?thesis using a b c d by simp
qed

section \<open>The join with the author\<close>

text \<open>
  Claim C9. Every row that the home, the public or a profile timeline renders pairs a
  message with a row of the user table whose \<open>user_id\<close> is the message's
  \<open>author_id\<close>. Hence a message whose \<open>author_id\<close> is the \<open>user_id\<close> of no user is
  on none of the three timelines, whatever its \<open>flagged\<close> value.
\<close>

theorem timelines_join_author:
  "(\<forall>r \<in> set (rendered_messages (fst (timeline db g_user sess req))).
      user_id (snd r) = author_id (fst r) \<and> snd r \<in> set (user_tbl db)) \<and>
   (\<forall>r \<in> set (rendered_messages (fst (public_timeline db g_user sess req))).
      user_id (snd r) = author_id (fst r) \<and> snd r \<in> set (user_tbl db)) \<and>
   (\<forall>r \<in> set (rendered_messages (fst (user_timeline name db g_user sess req))).
      user_id (snd r) = author_id (fst r) \<and> snd r \<in> set (user_tbl db)) \<and>
   (author_id m \<notin> user_id ` set (user_tbl db) \<longrightarrow>
      m \<notin> fst ` set (rendered_messages (fst (timeline db g_user sess req))) \<and>
      m \<notin> fst ` set (rendered_messages (fst (public_timeline db g_user sess req))) \<and>
      m \<notin> fst ` set (rendered_messages (fst (user_timeline name db g_user sess req))))"
proof -
  have home: "user_id (snd r) = author_id (fst r) \<and> snd r \<in> set (user_tbl db)"
    if "r \<in> set (rendered_messages (fst (timeline db g_user sess req)))" for r
    using that
    by (auto simp: rendered_timeline split: option.splits if_splits
        dest: select_home_timeline_row(2) select_home_timeline_row(4))
  have pub: "user_id (snd r) = author_id (fst r) \<and> snd r \<in> set (user_tbl db)"
    if "r \<in> set (rendered_messages (fst (public_timeline db g_user sess req)))" for r
    using that
    by (auto simp: rendered_public_timeline split: if_splits
        dest: select_public_timeline_row(2) select_public_timeline_row(4))
  have prof: "user_id (snd r) = author_id (fst r) \<and> snd r \<in> set (user_tbl db)"
    if "r \<in> set (rendered_messages (fst (user_timeline name db g_user sess req)))" for r
    using that
    by (auto simp: rendered_user_timeline split: option.splits if_splits
        dest: select_user_timeline_row(2) select_user_timeline_row(4))
  have orphan: "m \<notin> fst ` set rows"
    if "author_id m \<notin> user_id ` set (user_tbl db)"
      and "\<And>r. r \<in> set rows \<Longrightarrow>
             user_id (snd r) = author_id (fst r) \<and> snd r \<in> set (user_tbl db)"
    for rows :: "timeline_row list"
  proof
    assume "m \<in> fst ` set rows"
    then obtain r where r: "r \<in> set rows" "fst r = m" by auto
    from that(2) [OF r(1)] r(2) have "author_id m \<in> user_id ` set (user_tbl db)"
      by (metis imageI)
    with that(1) show False by simp
  qed
  show ?thesis
    using home pub prof orphan [OF _ home] orphan [OF _ pub] orphan [OF _ prof]
    by blast
qed

text \<open>
  In the example store message 3 is rendered with its author Bob; message 4 is unflagged,
  its author 9 is no user, and it is on no timeline.
\<close>

theorem timelines_join_author_witness:
  "(ex_message 3 2 30 0, ex_bob) \<in>
     set (rendered_messages (fst (public_timeline ex_db None ex_anonymous ex_get))) \<and>
   user_id ex_bob = author_id (ex_message 3 2 30 0) \<and>
   ex_message 4 9 40 0 \<in> set (message_tbl ex_db) \<and>
   flagged (ex_message 4 9 40 0) = 0 \<and>
   author_id (ex_message 4 9 40 0) \<notin> user_id ` set (user_tbl ex_db) \<and>
   ex_message 4 9 40 0 \<notin>
     fst ` set (rendered_messages (fst (timeline ex_db (Some ex_alice) ex_alice_session ex_get))) \<and>
   ex_message 4 9 40 0 \<notin>
     fst ` set (rendered_messages (fst (public_timeline ex_db None ex_anonymous ex_get))) \<and>
   ex_message 4 9 40 0 \<notin>
     fst ` set (rendered_messages (fst (user_timeline ''bob'' ex_db None ex_anonymous ex_get)))"
proof -
  let ?r = "(ex_message 3 2 30 0, ex_bob)"
  let ?m = "ex_message 4 9 40 0"
  have a: "?r \<in> set (rendered_messages (fst (public_timeline ex_db None ex_anonymous ex_get)))"
    by (simp add: rendered_public_timeline sql_defs ex_defs)
  have b: "author_id ?m \<notin> user_id ` set (user_tbl ex_db)"
    by (simp add: ex_defs)
  have c: "?m \<in> set (message_tbl ex_db)" "flagged ?m = 0"
    by (simp_all add: ex_defs)
  from timelines_join_author [of ex_db None ex_anonymous ex_get "''bob''" ?m] a
  have "user_id (snd ?r) = author_id (fst ?r)" by blast
  moreover
  from timelines_join_author [of ex_db "Some ex_alice" ex_alice_session ex_get "''bob''" ?m] b
  have "?m \<notin> fst ` set (rendered_messages
                          (fst (timeline ex_db (Some ex_alice) ex_alice_session ex_get)))"
    by blast
  moreover from timelines_join_author [of ex_db None ex_anonymous ex_get "''bob''" ?m] b
  have "?m \<notin> fst ` set (rendered_messages (fst (public_timeline ex_db None ex_anonymous ex_get)))"
    "?m \<notin> fst ` set (rendered_messages
                       (fst (user_timeline ''bob'' ex_db None ex_anonymous ex_get)))"
    by blast+
  ultimately show ?thesis using a b c by simp
qed

section \<open>Following and unfollowing\<close>

text \<open>
  \<^verbatim>\<open>follow_user\<close> and \<^verbatim>\<open>unfollow_user\<close> touch neither the user table nor the
  session's user id, and \<^verbatim>\<open>user_timeline\<close> hands \<^verbatim>\<open>followed\<close> to the template as
  its lookup in the follower table finds it.
\<close>

lemma get_user_id_query:
  "get_user_id db name = map_option user_id (query_db_one (select_user_by_name db name))"
  by (simp add: get_user_id_def query_db_one_def select_user_by_name_def split: list.splits)

lemma before_request_follower:
  "before_request (insert_follower db a b) (flash msg sess) = before_request db sess"
  "before_request (delete_follower db a b) (flash msg sess) = before_request db sess"
  by (simp_all add: before_request_def select_user_by_id_def insert_follower_def
      delete_follower_def flash_def split: option.splits)

lemma get_user_id_follower:
  "get_user_id (insert_follower db a b) name = get_user_id db name"
  "get_user_id (delete_follower db a b) name = get_user_id db name"
  by (simp_all add: get_user_id_def insert_follower_def delete_follower_def)

lemma handle_request_follow_user:
  assumes "fst (before_request db sess) \<noteq> None" and "sess_user_id sess = Some a"
    and "get_user_id db name = Some b"
  shows "handle_request (follow_user name) db sess req =
           (Redirect (To_user_timeline name), insert_follower db a b,
            flash (''You are now following '' @ [CHR 0x22] @ name @ [CHR 0x22]) sess,
            snd (before_request db sess) @
            [Sql_select_user_id_by_name, Sql_insert_follower, Commit])"
  using assms
  by (cases "before_request db sess") (auto simp: handle_request_def follow_user_def)

lemma handle_request_unfollow_user:
  assumes "fst (before_request db sess) \<noteq> None" and "sess_user_id sess = Some a"
    and "get_user_id db name = Some b"
  shows "handle_request (unfollow_user name) db sess req =
           (Redirect (To_user_timeline name), delete_follower db a b,
            flash (''You are no longer following '' @ [CHR 0x22] @ name @ [CHR 0x22]) sess,
            snd (before_request db sess) @
            [Sql_select_user_id_by_name, Sql_delete_follower, Commit])"
  using assms
  by (cases "before_request db sess") (auto simp: handle_request_def unfollow_user_def)

lemma user_timeline_followed:
  assumes "fst (before_request db sess) \<noteq> None" and "sess_user_id sess = Some a"
    and "get_user_id db name = Some b" and "fits_int64 (page_arg req * PER_PAGE)"
  shows "rendered_followed (fst (handle_request (user_timeline name) db sess req)) =
           Some (query_db_one (select_follower db a b) \<noteq> None)"
proof -
  from assms(3) obtain p where p: "query_db_one (select_user_by_name db name) = Some p"
    and b: "user_id p = b"
    by (auto simp: get_user_id_query)
  obtain g looked_up where g: "before_request db sess = (g, looked_up)"
    by (cases "before_request db sess")
  with assms(1) have "g \<noteq> None" by simp
  with g p b assms(2,4) show ?thesis
    by (simp add: handle_request_def user_timeline_def rendered_followed_def Let_def)
qed

text \<open>
  Claim C3. For all user ids \<open>a\<close> and \<open>b\<close> and every database state: after the insert
  that \<^verbatim>\<open>follow_user\<close> runs, the lookup that \<^verbatim>\<open>user_timeline\<close> runs for
  \<^verbatim>\<open>followed\<close> finds a row; after the delete that \<^verbatim>\<open>unfollow_user\<close> runs it finds
  none; and when it finds none before the delete, the delete leaves the database, and with
  it the follower relation, as it was. On the views, for a logged-in user \<open>a\<close> and the
  name of a user \<open>b\<close>: a request to \<^verbatim>\<open>follow_user\<close> is answered with the redirect
  to the profile, and the profile page of \<open>b\<close> that \<open>a\<close> requests next is rendered with
  \<^verbatim>\<open>followed\<close> true; after a request to \<^verbatim>\<open>unfollow_user\<close> it is rendered with
  \<^verbatim>\<open>followed\<close> false; and when the profile page showed \<^verbatim>\<open>followed\<close> false
  before, \<^verbatim>\<open>unfollow_user\<close> still answers with the redirect, not an error, and
  leaves the database as it was. The profile page is one whose offset the driver can bind.
\<close>

theorem follow_unfollow_is_following:
  "query_db_one (select_follower (insert_follower db a b) a b) \<noteq> None \<and>
   query_db_one (select_follower (delete_follower db a b) a b) = None \<and>
   (query_db_one (select_follower db a b) = None \<longrightarrow> delete_follower db a b = db) \<and>
   (fst (before_request db sess) \<noteq> None \<and> sess_user_id sess = Some a \<and>
    get_user_id db name = Some b \<and> fits_int64 (page_arg req2 * PER_PAGE) \<longrightarrow>
      (case handle_request (follow_user name) db sess req of
         (resp, db', sess', done) \<Rightarrow>
           resp = Redirect (To_user_timeline name) \<and> db' = insert_follower db a b \<and>
           rendered_followed (fst (handle_request (user_timeline name) db' sess' req2)) =
             Some True) \<and>
      (case handle_request (unfollow_user name) db sess req of
         (resp, db', sess', done) \<Rightarrow>
           resp = Redirect (To_user_timeline name) \<and> db' = delete_follower db a b \<and>
           rendered_followed (fst (handle_request (user_timeline name) db' sess' req2)) =
             Some False \<and>
           (rendered_followed (fst (handle_request (user_timeline name) db sess req2)) =
              Some False \<longrightarrow> db' = db)))"
proof (intro conjI impI)
  show ins: "query_db_one (select_follower (insert_follower db a b) a b) \<noteq> None"
    by (simp add: query_db_one_def select_follower_def insert_follower_def split: list.splits)
  show del: "query_db_one (select_follower (delete_follower db a b) a b) = None"
    by (simp add: query_db_one_def select_follower_def delete_follower_def)
  show same: "delete_follower db a b = db" if "query_db_one (select_follower db a b) = None"
  proof -
    from that have "filter (\<lambda>f. who_id f = a \<and> whom_id f = b) (follower_tbl db) = []"
      by (simp add: query_db_one_def select_follower_def split: list.splits)
    then have "filter (\<lambda>f. \<not> (who_id f = a \<and> whom_id f = b)) (follower_tbl db) =
                 follower_tbl db"
      by (simp add: filter_empty_conv)
    then show ?thesis by (simp add: delete_follower_def)
  qed
  assume h: "fst (before_request db sess) \<noteq> None \<and> sess_user_id sess = Some a \<and>
             get_user_id db name = Some b \<and> fits_int64 (page_arg req2 * PER_PAGE)"
  then have h1: "fst (before_request db sess) \<noteq> None" and h2: "sess_user_id sess = Some a"
    and h3: "get_user_id db name = Some b" and h4: "fits_int64 (page_arg req2 * PER_PAGE)"
    by simp_all
  have after: "rendered_followed
                 (fst (handle_request (user_timeline name) db1 (flash msg sess) req2)) =
               Some (query_db_one (select_follower db1 a b) \<noteq> None)"
    if "db1 = insert_follower db a b \<or> db1 = delete_follower db a b" for db1 msg
  proof -
    from that have "before_request db1 (flash msg sess) = before_request db sess"
      and "get_user_id db1 name = get_user_id db name"
      by (auto simp: before_request_follower get_user_id_follower)
    with h1 h3 have k1: "fst (before_request db1 (flash msg sess)) \<noteq> None"
      and k3: "get_user_id db1 name = Some b"
      by simp_all
    from h2 have k2: "sess_user_id (flash msg sess) = Some a"
      by (simp add: flash_def)
    show ?thesis by (rule user_timeline_followed [OF k1 k2 k3 h4])
  qed
  show "case handle_request (follow_user name) db sess req of
         (resp, db', sess', done) \<Rightarrow>
           resp = Redirect (To_user_timeline name) \<and> db' = insert_follower db a b \<and>
           rendered_followed (fst (handle_request (user_timeline name) db' sess' req2)) =
             Some True"
    using handle_request_follow_user [OF h1 h2 h3, of req] after ins by simp
  have before: "rendered_followed (fst (handle_request (user_timeline name) db sess req2)) =
                  Some (query_db_one (select_follower db a b) \<noteq> None)"
    using h1 h2 h3 h4 by (rule user_timeline_followed)
  show "case handle_request (unfollow_user name) db sess req of
         (resp, db', sess', done) \<Rightarrow>
           resp = Redirect (To_user_timeline name) \<and> db' = delete_follower db a b \<and>
           rendered_followed (fst (handle_request (user_timeline name) db' sess' req2)) =
             Some False \<and>
           (rendered_followed (fst (handle_request (user_timeline name) db sess req2)) =
              Some False \<longrightarrow> db' = db)"
    using handle_request_unfollow_user [OF h1 h2 h3, of req] after del before same by simp
qed

text \<open>
  In the example store Alice follows Bob and Bob does not follow Alice. Bob's page of Alice
  shows \<^verbatim>\<open>followed\<close> false and his unfollowing her changes nothing; after he follows
  her it shows true. After Alice unfollows Bob her page of Bob shows false.
\<close>

theorem follow_unfollow_is_following_witness:
  "fst (before_request ex_db ex_bob_session) \<noteq> None \<and>
   sess_user_id ex_bob_session = Some 2 \<and> get_user_id ex_db ''alice'' = Some 1 \<and>
   fits_int64 (page_arg ex_get * PER_PAGE) \<and>
   rendered_followed (fst (handle_request (user_timeline ''alice'') ex_db ex_bob_session ex_get)) =
     Some False \<and>
   fst (snd (handle_request (unfollow_user ''alice'') ex_db ex_bob_session ex_get)) = ex_db \<and>
   fst (handle_request (follow_user ''alice'') ex_db ex_bob_session ex_get) =
     Redirect (To_user_timeline ''alice'') \<and>
   rendered_followed
     (fst (handle_request (user_timeline ''alice'') (insert_follower ex_db 2 1)
             (fst (snd (snd (handle_request (follow_user ''alice'') ex_db ex_bob_session ex_get))))
             ex_get)) = Some True \<and>
   rendered_followed
     (fst (handle_request (user_timeline ''bob'')
             (fst (snd (handle_request (unfollow_user ''bob'') ex_db ex_alice_session ex_get)))
             (fst (snd (snd (handle_request (unfollow_user ''bob'') ex_db ex_alice_session ex_get))))
             ex_get)) = Some False"
proof -
  have a: "fst (before_request ex_db ex_bob_session) \<noteq> None"
    and b: "sess_user_id ex_bob_session = Some 2"
    and c: "get_user_id ex_db ''alice'' = Some 1"
    and d: "fits_int64 (page_arg ex_get * PER_PAGE)"
    and e: "rendered_followed
              (fst (handle_request (user_timeline ''alice'') ex_db ex_bob_session ex_get)) =
            Some False"
    by code_simp+
  have a': "fst (before_request ex_db ex_alice_session) \<noteq> None"
    and b': "sess_user_id ex_alice_session = Some 1"
    and c': "get_user_id ex_db ''bob'' = Some 2"
    by code_simp+
  note bob = follow_unfollow_is_following
    [of ex_db 2 1 ex_bob_session "''alice''" ex_get ex_get]
  note alice = follow_unfollow_is_following
    [of ex_db 1 2 ex_alice_session "''bob''" ex_get ex_get]
  from bob a b c d e
  have "fst (snd (handle_request (unfollow_user ''alice'') ex_db ex_bob_session ex_get)) = ex_db"
    and "fst (handle_request (follow_user ''alice'') ex_db ex_bob_session ex_get) =
           Redirect (To_user_timeline ''alice'')"
    and "rendered_followed
     (fst (handle_request (user_timeline ''alice'') (insert_follower ex_db 2 1)
             (fst (snd (snd (handle_request (follow_user ''alice'') ex_db ex_bob_session ex_get))))
             ex_get)) = Some True"
    by (auto split: prod.splits)
  moreover from alice a' b' c' d
  have "rendered_followed
     (fst (handle_request (user_timeline ''bob'')
             (fst (snd (handle_request (unfollow_user ''bob'') ex_db ex_alice_session ex_get)))
             (fst (snd (snd (handle_request (unfollow_user ''bob'') ex_db ex_alice_session ex_get))))
             ex_get)) = Some False"
    by (auto split: prod.splits)
  ultimately show ?thesis using a b c d e by blast
qed

section \<open>Posting a message\<close>

text \<open>
  Claim C6. For every viewer whose session carries a user id, posting the empty string as
  the text of a message inserts no row, records no flash message, runs no statement, and
  answers with the same redirect to the home timeline as a successful post.
\<close>

theorem add_message_empty_text_dropped:
  "sess_user_id sess = Some uid \<Longrightarrow> form req ''text'' = Some [] \<Longrightarrow>
   add_message db g_user sess req = (Redirect To_timeline, db, sess, [])"
  by (simp add: add_message_def)

theorem add_message_empty_text_dropped_witness:
  "sess_user_id ex_alice_session = Some 1 \<and> form ex_post_empty_text ''text'' = Some [] \<and>
   add_message ex_db (Some ex_alice) ex_alice_session ex_post_empty_text =
     (Redirect To_timeline, ex_db, ex_alice_session, [])"
proof -
  have a: "sess_user_id ex_alice_session = Some 1" by (simp add: ex_alice_session_def)
  have b: "form ex_post_empty_text ''text'' = Some []" by (simp add: ex_post_empty_text_def)
  show ?thesis using a b add_message_empty_text_dropped [OF a b] by simp
qed

text \<open>
  Claim C5 says that creating a message with empty text fails with a validation error.
  The only place that creates messages is \<^verbatim>\<open>add_message\<close>, and for Alice's empty post
  its response is not an error.
\<close>

theorem create_message_validation_error_counterexample:
  "\<not> is_error (fst (add_message ex_db (Some ex_alice) ex_alice_session ex_post_empty_text))"
  by (simp add: add_message_def is_error_def ex_alice_session_def ex_post_empty_text_def)

text \<open>
  Claim C5, amended. For every author id and every timestamp, creating a message with
  empty text does not fail: the response is no error, and the message table is as before.
\<close>

theorem add_message_empty_text_no_error:
  "sess_user_id sess = Some author \<Longrightarrow> form req ''text'' = Some [] \<Longrightarrow>
   \<not> is_error (fst (add_message db g_user sess req)) \<and>
   message_tbl (fst (snd (add_message db g_user sess req))) = message_tbl db"
  by (simp add: add_message_def is_error_def)

theorem add_message_empty_text_no_error_witness:
  "sess_user_id ex_alice_session = Some 1 \<and> form ex_post_empty_text ''text'' = Some [] \<and>
   \<not> is_error (fst (add_message ex_db (Some ex_alice) ex_alice_session ex_post_empty_text)) \<and>
   message_tbl (fst (snd (add_message ex_db (Some ex_alice) ex_alice_session ex_post_empty_text)))
     = message_tbl ex_db"
proof -
  have a: "sess_user_id ex_alice_session = Some 1" by (simp add: ex_alice_session_def)
  have b: "form ex_post_empty_text ''text'' = Some []" by (simp add: ex_post_empty_text_def)
  show ?thesis using a b add_message_empty_text_no_error [OF a b] by simp
qed

section \<open>Anonymous and authenticated viewers\<close>

text \<open>
  Claim C7. For every request to the home view for which \<^verbatim>\<open>before_request\<close> finds no
  user (no user id in the session, or one that is no user's), the response is the redirect
  to the public timeline, not an error; the database and the session are unchanged, and
  none of the statements run for the request reads a timeline.
\<close>

theorem anonymous_home_redirects:
  "fst (before_request db sess) = None \<Longrightarrow>
   timeline db None sess req = (Redirect To_public_timeline, db, sess, []) \<and>
   (case handle_request timeline db sess req of
      (resp, db', sess', done) \<Rightarrow>
        resp = Redirect To_public_timeline \<and> db' = db \<and> sess' = sess \<and>
        \<not> list_ex is_timeline_query done)"
  using before_request_None [of db sess]
  by (auto simp: handle_request_def timeline_def is_timeline_query_def)

theorem anonymous_home_redirects_witness:
  "fst (before_request ex_db ex_anonymous) = None \<and>
   handle_request timeline ex_db ex_anonymous ex_get =
     (Redirect To_public_timeline, ex_db, ex_anonymous, [])"
proof -
  have a: "fst (before_request ex_db ex_anonymous) = None"
    by (simp add: before_request_def ex_anonymous_def)
  have "before_request ex_db ex_anonymous = (None, [])"
    by (simp add: before_request_def ex_anonymous_def)
  then show ?thesis
    using a anonymous_home_redirects [OF a, of ex_get] by (simp add: handle_request_def)
qed

text \<open>
  Claim C10. For every request to \<^verbatim>\<open>login\<close> or \<^verbatim>\<open>register\<close> for which
  \<^verbatim>\<open>before_request\<close> finds the session's user, whatever the HTTP verb and the form, the
  response is the redirect to the home timeline, the database and the session (the user id
  and the flashed messages) are unchanged, and the view does nothing else: the only
  statement of the request is the lookup of \<^verbatim>\<open>before_request\<close>, so no password hash is
  checked or generated and no user row is inserted.
\<close>

theorem authenticated_login_register_redirect:
  "fst (before_request db sess) = Some u \<Longrightarrow>
   login check_password_hash db (Some u) sess req = (Redirect To_timeline, db, sess, []) \<and>
   register generate_password_hash db (Some u) sess req = (Redirect To_timeline, db, sess, []) \<and>
   handle_request (login check_password_hash) db sess req =
     (Redirect To_timeline, db, sess, [Sql_select_user_by_id]) \<and>
   handle_request (register generate_password_hash) db sess req =
     (Redirect To_timeline, db, sess, [Sql_select_user_by_id])"
  using before_request_Some [of db sess u]
  by (simp add: handle_request_def login_def register_def)

theorem authenticated_login_register_redirect_witness:
  "fst (before_request ex_db ex_alice_session) = Some ex_alice \<and>
   handle_request (login (\<lambda>h p. h = p)) ex_db ex_alice_session ex_post_register =
     (Redirect To_timeline, ex_db, ex_alice_session, [Sql_select_user_by_id]) \<and>
   handle_request (register (\<lambda>p. p)) ex_db ex_alice_session ex_post_register =
     (Redirect To_timeline, ex_db, ex_alice_session, [Sql_select_user_by_id])"
proof -
  have a: "fst (before_request ex_db ex_alice_session) = Some ex_alice"
    by (simp add: before_request_def select_user_by_id_def query_db_one_def ex_defs)
  show ?thesis
    using a
      authenticated_login_register_redirect [OF a, of "\<lambda>h p. h = p" ex_post_register "\<lambda>p. p"]
    by simp
qed

section \<open>The timeline queries against the spec's scopes\<close>

















section \<open>Pages of the public timeline\<close>






section \<open>The first page of the home timeline\<close>




section \<open>Registration\<close>

lemma fold_max_ge: "(a::int) \<le> fold max ids a"
proof (induction ids arbitrary: a)
  case Nil
  show ?case by simp
next
  case (Cons i ids)
  have "a \<le> max i a" by simp
  also have "\<dots> \<le> fold max ids (max i a)" by (rule Cons.IH)
  finally show ?case by simp
qed

lemma fold_max_upper: "x \<in> set ids \<Longrightarrow> (x::int) \<le> fold max ids a"
proof (induction ids arbitrary: a)
  case Nil
  then show ?case by simp
next
  case (Cons i ids)
  show ?case
  proof (cases "x = i")
    case True
    have "x \<le> max i a" using True by simp
    also have "\<dots> \<le> fold max ids (max i a)" by (rule fold_max_ge)
    finally show ?thesis by simp
  next
    case False
    with Cons.prems have "x \<in> set ids" by simp
    then show ?thesis using Cons.IH by simp
  qed
qed

lemma next_id_fresh: "next_id ids \<notin> set ids"
proof
  assume "next_id ids \<in> set ids"
  then have "next_id ids \<le> fold max ids 0" by (rule fold_max_upper)
  then show False by (simp add: next_id_def)
qed

lemma get_user_id_None:
  "get_user_id db name = None \<longleftrightarrow> filter (\<lambda>u. username u = name) (user_tbl db) = []"
  by (simp add: get_user_id_def split: list.splits)

lemma get_user_id_insert_user:
  assumes "get_user_id db name = None"
  shows "get_user_id (insert_user db name mail hash) name =
           Some (next_id (map user_id (user_tbl db)))"
  using assms by (simp add: get_user_id_None) (simp add: get_user_id_def insert_user_def)

lemma register_valid:
  assumes "valid_registration req name mail pw"
  shows "register generate_password_hash db None sess req =
           (if get_user_id db name \<noteq> None then
              (Register_page (Some ''The username is already taken''), db, sess,
               [Sql_select_user_id_by_name])
            else
              (Redirect To_login,
               insert_user db name mail (generate_password_hash pw),
               flash ''You were successfully registered and can login now'' sess,
               [Sql_select_user_id_by_name, Password_hash_generated, Sql_insert_user, Commit]))"
  using assms by (simp add: valid_registration_def register_def)

text \<open>
  Claim C4. For every registration, by a client that is not logged in, whose fields pass
  the checks of \<^verbatim>\<open>register\<close> and whose username no user has, \<^verbatim>\<open>register\<close>
  looks the username up, then inserts one user row with a fresh id and redirects to the
  login page; \<^verbatim>\<open>get_user_id\<close> of that username then returns the id of the new row. A second valid registration with the
  same username gets the error \<open>The username is already taken\<close>: the lookup is its
  only statement, no row is inserted, and the database is unchanged.
\<close>

theorem register_then_lookup:
  assumes "valid_registration req name mail pw"
    and "get_user_id db name = None"
    and "valid_registration req2 name mail2 pw2"
  shows "let new_id = next_id (map user_id (user_tbl db));
             db' = insert_user db name mail (generate_password_hash pw)
         in register generate_password_hash db None sess req =
              (Redirect To_login, db',
               flash ''You were successfully registered and can login now'' sess,
               [Sql_select_user_id_by_name, Password_hash_generated, Sql_insert_user, Commit]) \<and>
            user_tbl db' = user_tbl db @
               [\<lparr>user_id = new_id, username = name, email = mail,
                 pw_hash = generate_password_hash pw\<rparr>] \<and>
            new_id \<notin> set (map user_id (user_tbl db)) \<and>
            get_user_id db' name = Some new_id \<and>
            register generate_password_hash2 db' None sess2 req2 =
              (Register_page (Some ''The username is already taken''), db', sess2,
               [Sql_select_user_id_by_name])"
proof -
  define db' where "db' = insert_user db name mail (generate_password_hash pw)"
  have first: "register generate_password_hash db None sess req =
           (Redirect To_login, db',
            flash ''You were successfully registered and can login now'' sess,
            [Sql_select_user_id_by_name, Password_hash_generated, Sql_insert_user, Commit])"
    using register_valid [OF assms(1)] assms(2) by (simp add: db'_def)
  have row: "user_tbl db' = user_tbl db @
            [\<lparr>user_id = next_id (map user_id (user_tbl db)), username = name, email = mail,
              pw_hash = generate_password_hash pw\<rparr>]"
    by (simp add: db'_def insert_user_def)
  have lookup: "get_user_id db' name = Some (next_id (map user_id (user_tbl db)))"
    using get_user_id_insert_user [OF assms(2)] by (simp add: db'_def)
  then have "get_user_id db' name \<noteq> None" by simp
  then have second: "register generate_password_hash2 db' None sess2 req2 =
           (Register_page (Some ''The username is already taken''), db', sess2,
            [Sql_select_user_id_by_name])"
    using register_valid [OF assms(3), of generate_password_hash2 db' sess2] by simp
  from first row next_id_fresh lookup second show ?thesis
    unfolding Let_def db'_def by blast
qed

theorem register_then_lookup_witness:
  "valid_registration ex_post_register ''carol'' ''c@x.com'' ''pw3'' \<and>
   get_user_id ex_db ''carol'' = None \<and>
   register (\<lambda>p. p) ex_db None ex_anonymous ex_post_register =
     (Redirect To_login, insert_user ex_db ''carol'' ''c@x.com'' ''pw3'',
      flash ''You were successfully registered and can login now'' ex_anonymous,
      [Sql_select_user_id_by_name, Password_hash_generated, Sql_insert_user, Commit]) \<and>
   get_user_id (insert_user ex_db ''carol'' ''c@x.com'' ''pw3'') ''carol'' = Some 3 \<and>
   register (\<lambda>p. p) (insert_user ex_db ''carol'' ''c@x.com'' ''pw3'') None ex_anonymous
       ex_post_register =
     (Register_page (Some ''The username is already taken''),
      insert_user ex_db ''carol'' ''c@x.com'' ''pw3'', ex_anonymous, [Sql_select_user_id_by_name])"
proof -
  have a: "valid_registration ex_post_register ''carol'' ''c@x.com'' ''pw3''"
    by (simp add: valid_registration_def ex_post_register_def)
  have b: "get_user_id ex_db ''carol'' = None"
    by (simp add: get_user_id_def ex_defs)
  have d: "next_id (map user_id (user_tbl ex_db)) = 3"
    by (simp add: next_id_def ex_defs)
  show ?thesis
    using a b d
      register_then_lookup [OF a b a, of "\<lambda>p. p" ex_anonymous "\<lambda>p. p" ex_anonymous]
    by (simp add: Let_def)
qed

section \<open>The invariants of the store hold on every run\<close>

text \<open>
  The theorems on the pages of the timelines assume unique user ids and existing authors.
  Every view keeps both, so they hold after every run that starts from the empty database.
\<close>

lemma query_db_one_Some: "query_db_one rows = Some r \<Longrightarrow> r \<in> set rows"
  by (auto simp: query_db_one_def split: list.splits)

lemma store_invariant_insert_user:
  assumes "store_invariant db sess"
  shows "store_invariant (insert_user db name mail hash) (flash msg sess)"
  using assms next_id_fresh [of "map user_id (user_tbl db)"]
  by (auto simp: store_invariant_def unique_user_ids_def authors_exist_def session_user_exists_def
      insert_user_def flash_def list_all_iff split: option.splits)

lemma store_invariant_insert_message:
  assumes "store_invariant db sess" and "sess_user_id sess = Some uid"
  shows "store_invariant (insert_message db uid txt t) (flash msg sess)"
  using assms
  by (auto simp: store_invariant_def unique_user_ids_def authors_exist_def session_user_exists_def
      insert_message_def flash_def list_all_iff split: option.splits)

lemma store_invariant_follower:
  assumes "store_invariant db sess"
  shows "store_invariant (insert_follower db a b) (flash msg sess)"
    and "store_invariant (delete_follower db a b) (flash msg sess)"
  using assms
  by (auto simp: store_invariant_def unique_user_ids_def authors_exist_def session_user_exists_def
      insert_follower_def delete_follower_def flash_def list_all_iff split: option.splits)

lemma store_invariant_login:
  assumes "store_invariant db sess" and "query_db_one (select_user_by_name db name) = Some user"
  shows "store_invariant db ((flash msg sess)\<lparr>sess_user_id := Some (user_id user)\<rparr>)"
proof -
  from query_db_one_Some [OF assms(2)] have "user \<in> set (user_tbl db)"
    by (simp add: select_user_by_name_def)
  with assms(1) show ?thesis
    by (auto simp: store_invariant_def session_user_exists_def flash_def)
qed

lemma store_invariant_logout:
  assumes "store_invariant db sess"
  shows "store_invariant db ((flash msg sess)\<lparr>sess_user_id := None\<rparr>)"
  using assms by (auto simp: store_invariant_def session_user_exists_def flash_def)

lemma views_keep_store_invariant:
  assumes "store_invariant db sess"
    and "view_of check_password_hash generate_password_hash r db g_user sess req =
           (resp, db', sess', done)"
  shows "store_invariant db' sess'"
proof (cases r)
  case Route_timeline
  with assms show ?thesis
    by (auto simp: view_of_def timeline_def Let_def split: if_splits option.splits)
next
  case Route_public_timeline
  with assms show ?thesis
    by (auto simp: view_of_def public_timeline_def Let_def split: if_splits)
next
  case (Route_user_timeline name)
  with assms show ?thesis
    by (auto simp: view_of_def user_timeline_def Let_def split: if_splits option.splits)
next
  case (Route_follow_user name)
  with assms show ?thesis
    by (auto simp: view_of_def follow_user_def store_invariant_follower
        split: if_splits option.splits)
next
  case (Route_unfollow_user name)
  with assms show ?thesis
    by (auto simp: view_of_def unfollow_user_def store_invariant_follower
        split: if_splits option.splits)
next
  case Route_add_message
  with assms show ?thesis
    by (auto simp: view_of_def add_message_def store_invariant_insert_message
        split: if_splits option.splits)
next
  case Route_login
  with assms show ?thesis
    by (auto simp: view_of_def login_def store_invariant_login split: if_splits option.splits)
next
  case Route_register
  with assms show ?thesis
    by (auto simp: view_of_def register_def store_invariant_insert_user
        split: if_splits option.splits)
next
  case Route_logout
  with assms show ?thesis
    by (auto simp: view_of_def logout_def store_invariant_logout)
qed

lemma handle_request_keeps_store_invariant:
  assumes "store_invariant db sess"
    and "handle_request (view_of check_password_hash generate_password_hash r) db sess req =
           (resp, db', sess', done)"
  shows "store_invariant db' sess'"
proof -
  obtain g_user looked_up where b: "before_request db sess = (g_user, looked_up)"
    by (cases "before_request db sess")
  obtain resp1 db1 sess1 done1 where
    v: "view_of check_password_hash generate_password_hash r db g_user sess req =
          (resp1, db1, sess1, done1)"
    by (cases "view_of check_password_hash generate_password_hash r db g_user sess req")
  from assms(2) b v have "db' = db1" "sess' = sess1"
    by (simp_all add: handle_request_def)
  with views_keep_store_invariant [OF assms(1) v] show ?thesis by simp
qed

lemma serve_keeps_store_invariant:
  assumes "store_invariant db sess"
    and "serve check_password_hash generate_password_hash reqs db sess = (db', sess')"
  shows "store_invariant db' sess'"
  using assms
proof (induction reqs arbitrary: db sess)
  case Nil
  then show ?case by simp
next
  case (Cons rr reqs)
  obtain r req where rr: "rr = (r, req)" by (cases rr)
  obtain resp db1 sess1 done1 where
    h: "handle_request (view_of check_password_hash generate_password_hash r) db sess req =
          (resp, db1, sess1, done1)"
    by (cases "handle_request (view_of check_password_hash generate_password_hash r) db sess req")
  have "store_invariant db1 sess1"
    by (rule handle_request_keeps_store_invariant [OF Cons.prems(1) h])
  moreover from Cons.prems(2) rr h
  have "serve check_password_hash generate_password_hash reqs db1 sess1 = (db', sess')"
    by simp
  ultimately show ?case by (rule Cons.IH)
qed

lemma store_invariant_init_db:
  "sess_user_id sess = None \<Longrightarrow> store_invariant init_db sess"
  by (simp add: store_invariant_def unique_user_ids_def authors_exist_def
      session_user_exists_def init_db_def)

lemma reachable_store_invariants:
  assumes "sess_user_id sess = None"
    and "serve check_password_hash generate_password_hash reqs init_db sess = (db', sess')"
  shows "unique_user_ids db'" and "authors_exist db'"
  using serve_keeps_store_invariant [OF store_invariant_init_db [OF assms(1)] assms(2)]
  by (simp_all add: store_invariant_def)

end
